theory Spec2Isabelle
  imports Main "HOL-Library.Sublist" "HOL-Library.Char_ord" "HOL-Library.List_Lexorder"
    "HOL-Library.Multiset"
begin

section \<open>Text primitives of the interpreter\<close>

text \<open>
  This theory embeds the computations of \<open>NetflixAnalyzer\<close> (\<open>netflix_analysis.py\<close>):
  the preprocessing of the loaded table, the counts and cross-tabulations, the keyword
  and genre-pair counters, the search and the recommender. A function is modelled by the
  value it computes; an exception is a value \<open>Inl e\<close> of the result. The search and the
  recommender return nothing and print what they found: their result here is what they
  list, and an exception raised while they print is part of the model. The wording of
  what is printed, the charts and the menu loop are not modelled.

  The analyzer works on text cells of a table. Text is modelled as \<open>string\<close>, each
  \<open>char\<close> read as one code point; a missing cell (NaN) is \<open>None\<close>. The operations
  below are the ones the source calls on \<open>str\<close>: the \<open>in\<close> test, \<open>split\<close> with and
  without a separator, \<open>strip\<close>, \<open>lower\<close>, \<open>upper\<close> and \<open>int\<close>. Whitespace and case
  are those of ASCII: the operations are the interpreter's on text of ASCII characters
  (\<open>ascii_text\<close>), and the properties of functions that fold case or strip typed
  lines are stated for such text.
\<close>

datatype py_error = ValueError | IndexError | AttributeError | TypeError | RegexError

definition is_space :: "char \<Rightarrow> bool" where
  "is_space c = (let n = (of_char c :: nat) in (9 \<le> n \<and> n \<le> 13) \<or> (28 \<le> n \<and> n \<le> 32))"

definition strip :: "string \<Rightarrow> string" where
  "strip s = rev (dropWhile is_space (rev (dropWhile is_space s)))"

definition ascii_uppercase :: string where
  "ascii_uppercase = ''ABCDEFGHIJKLMNOPQRSTUVWXYZ''"

definition ascii_lowercase :: string where
  "ascii_lowercase = ''abcdefghijklmnopqrstuvwxyz''"

definition lower_char :: "char \<Rightarrow> char" where
  "lower_char c = (case map_of (zip ascii_uppercase ascii_lowercase) c of Some d \<Rightarrow> d | None \<Rightarrow> c)"


definition lower :: "string \<Rightarrow> string" where
  "lower s = map lower_char s"


definition ascii_text :: "string \<Rightarrow> bool" where
  "ascii_text s = list_all (\<lambda>c. (of_char c :: nat) < 128) s"

text \<open>\<open>sub in s\<close>: \<open>sub\<close> occurs in \<open>s\<close> as a contiguous block.\<close>

fun py_in :: "string \<Rightarrow> string \<Rightarrow> bool" where
  "py_in sub [] = (sub = [])"
| "py_in sub (c # cs) = (prefix sub (c # cs) \<or> py_in sub cs)"

text \<open>
  \<open>s.split(sep)\<close>: cut at every occurrence of \<open>sep\<close>, scanning from the left;
  adjacent separators give empty pieces and the result is never empty. The accumulator
  holds the current piece, reversed. The source passes the separators \<open>' '\<close> and
  \<open>', '\<close>; an empty separator, which the interpreter rejects, cuts nothing here.
\<close>

function split_acc :: "string \<Rightarrow> string \<Rightarrow> string \<Rightarrow> string list" where
  "split_acc sep acc [] = [rev acc]"
| "split_acc sep acc (c # cs) =
     (if sep \<noteq> [] \<and> prefix sep (c # cs)
      then rev acc # split_acc sep [] (drop (length sep) (c # cs))
      else split_acc sep (c # acc) cs)"
  by pat_completeness auto
termination
  by (relation "measure (\<lambda>(sep, acc, s). length s)") auto

definition split_on :: "string \<Rightarrow> string \<Rightarrow> string list" where
  "split_on sep s = split_acc sep [] s"

text \<open>\<open>s.split()\<close>: the maximal runs of non-whitespace characters.\<close>

fun words_acc :: "string \<Rightarrow> string \<Rightarrow> string list" where
  "words_acc acc [] = (if acc = [] then [] else [rev acc])"
| "words_acc acc (c # cs) =
     (if is_space c
      then (if acc = [] then words_acc [] cs else rev acc # words_acc [] cs)
      else words_acc (c # acc) cs)"

definition split_ws :: "string \<Rightarrow> string list" where
  "split_ws s = words_acc [] s"

text \<open>
  \<open>int(s)\<close> on text: surrounding blanks are ignored (the space and the characters 9
  to 13; not the separators 28 to 31, which \<open>strip\<close> and \<open>split\<close> do take for
  whitespace), then an optional sign and a run of decimal digits in which single
  underscores may separate digits. Anything else is a ValueError, here \<open>None\<close>. (The
  interpreter's configurable limit on the number of digits is not part of the model.)
\<close>

definition is_blank :: "char \<Rightarrow> bool" where
  "is_blank c = (let n = (of_char c :: nat) in (9 \<le> n \<and> n \<le> 13) \<or> n = 32)"

definition digit_val :: "char \<Rightarrow> nat option" where
  "digit_val c = map_of (zip ''0123456789'' [0, 1, 2, 3, 4, 5, 6, 7, 8, 9]) c"

fun int_digits :: "nat \<Rightarrow> string \<Rightarrow> nat option" where
  "int_digits acc [] = Some acc"
| "int_digits acc [c] =
     (case digit_val c of Some v \<Rightarrow> Some (10 * acc + v) | None \<Rightarrow> None)"
| "int_digits acc (c # d # cs) =
     (case digit_val c of
        Some v \<Rightarrow> int_digits (10 * acc + v) (d # cs)
      | None \<Rightarrow>
          (if c = CHR ''_'' \<and> digit_val d \<noteq> None then int_digits acc (d # cs) else None))"

definition unsigned_int :: "string \<Rightarrow> nat option" where
  "unsigned_int s =
     (case s of
        [] \<Rightarrow> None
      | c # cs \<Rightarrow> (if digit_val c = None then None else int_digits 0 (c # cs)))"

definition py_int :: "string \<Rightarrow> int option" where
  "py_int s =
     (case rev (dropWhile is_blank (rev (dropWhile is_blank s))) of
        [] \<Rightarrow> None
      | c # cs \<Rightarrow>
          (if c = CHR ''-'' then map_option (\<lambda>n. - int n) (unsigned_int cs)
           else if c = CHR ''+'' then map_option int (unsigned_int cs)
           else map_option int (unsigned_int (c # cs))))"

section \<open>The table and its preprocessing\<close>

text \<open>
  A row of the loaded CSV, with the columns the analyzer reads. \<open>other\<close> holds the cells
  of any further columns of the file, which the analyzer carries along unread.
\<close>

record raw_row =
  r_title :: "string option"
  r_type :: "string option"
  r_country :: "string option"
  r_release_year :: "int option"
  r_rating :: "string option"
  r_duration :: "string option"
  r_listed_in :: "string option"
  r_cast :: "string option"
  r_director :: "string option"
  r_description :: "string option"
  r_date_added :: "string option"
  r_other :: "string option list"

datatype month = January | February | March | April | May | June | July
  | August | September | October | November | December

record timestamp =
  ts_year :: int
  ts_month :: month
  ts_day :: nat

fun month_name :: "month \<Rightarrow> string" where
  "month_name January = ''January''"
| "month_name February = ''February''"
| "month_name March = ''March''"
| "month_name April = ''April''"
| "month_name May = ''May''"
| "month_name June = ''June''"
| "month_name July = ''July''"
| "month_name August = ''August''"
| "month_name September = ''September''"
| "month_name October = ''October''"
| "month_name November = ''November''"
| "month_name December = ''December''"

fun month_number :: "month \<Rightarrow> int" where
  "month_number January = 1"
| "month_number February = 2"
| "month_number March = 3"
| "month_number April = 4"
| "month_number May = 5"
| "month_number June = 6"
| "month_number July = 7"
| "month_number August = 8"
| "month_number September = 9"
| "month_number October = 10"
| "month_number November = 11"
| "month_number December = 12"

text \<open>The day of the week of a calendar date (Zeller's congruence, Gregorian calendar).\<close>

definition day_name :: "timestamp \<Rightarrow> string" where
  "day_name t =
     (let m0 = month_number (ts_month t);
          y = (if m0 < 3 then ts_year t - 1 else ts_year t);
          m = (if m0 < 3 then m0 + 12 else m0);
          k = y mod 100;
          j = y div 100;
          h = (int (ts_day t) + (13 * (m + 1)) div 5 + k + k div 4 + j div 4 + 5 * j) mod 7
      in [''Saturday'', ''Sunday'', ''Monday'', ''Tuesday'', ''Wednesday'', ''Thursday'',
          ''Friday''] ! nat h)"

text \<open>A row after preprocessing: the CSV columns, \<open>date_added\<close> parsed, and the derived columns.\<close>

record row =
  title :: "string option"
  type :: "string option"
  country :: "string option"
  release_year :: "int option"
  rating :: "string option"
  duration :: "string option"
  listed_in :: "string option"
  cast :: "string option"
  director :: "string option"
  description :: "string option"
  date_added :: "timestamp option"
  other :: "string option list"
  year_added :: "int option"
  month_added :: "string option"
  day_added :: "string option"
  duration_min :: "int option"
  seasons :: "int option"
  content_type :: string

text \<open>\<open>str(x)\<close> of a cell: the text itself, or \<open>nan\<close> for a missing cell.\<close>

definition str_of :: "string option \<Rightarrow> string" where
  "str_of x = (case x of None \<Rightarrow> ''nan'' | Some s \<Rightarrow> s)"

text \<open>
  \<open>int(x.split(' ')[0])\<close>: the piece before the first space, read as an integer. A
  missing cell is a float and has no \<open>split\<close>.
\<close>

definition leading_int :: "string option \<Rightarrow> py_error + int" where
  "leading_int x =
     (case x of
        None \<Rightarrow> Inl AttributeError
      | Some s \<Rightarrow>
          (case split_on '' '' s of
             [] \<Rightarrow> Inl IndexError
           | tok # _ \<Rightarrow> (case py_int tok of None \<Rightarrow> Inl ValueError | Some n \<Rightarrow> Inr n)))"

text \<open>The two lambdas of \<open>preprocess_data\<close> (source lines 48-55).\<close>

definition duration_min_of :: "string option \<Rightarrow> py_error + int option" where
  "duration_min_of x =
     (if py_in ''min'' (str_of x) then map_sum id Some (leading_int x) else Inr None)"

definition seasons_of :: "string option \<Rightarrow> py_error + int option" where
  "seasons_of x =
     (if py_in ''Season'' (str_of x) then map_sum id Some (leading_int x) else Inr None)"

definition content_type_of :: "string option \<Rightarrow> string" where
  "content_type_of x = (if x = Some ''Movie'' then ''Movie'' else ''TV Show'')"

text \<open>\<open>Series.apply\<close>: the function on each cell in turn; the first exception ends it.\<close>

fun apply_col :: "('a \<Rightarrow> py_error + 'b) \<Rightarrow> 'a list \<Rightarrow> py_error + 'b list" where
  "apply_col f [] = Inr []"
| "apply_col f (x # xs) =
     (case f x of
        Inl e \<Rightarrow> Inl e
      | Inr y \<Rightarrow> (case apply_col f xs of Inl e \<Rightarrow> Inl e | Inr ys \<Rightarrow> Inr (y # ys)))"

text \<open>
  \<open>pd.to_datetime(..., format='%B %d, %Y', errors='coerce')\<close>: the library's parser
  \<open>strptime\<close> is a parameter; a cell it rejects, or a missing cell, becomes NaT.
\<close>

definition to_datetime :: "(string \<Rightarrow> timestamp option) \<Rightarrow> string option \<Rightarrow> timestamp option" where
  "to_datetime strptime x = (case x of None \<Rightarrow> None | Some s \<Rightarrow> strptime s)"

definition derive_row :: "(string \<Rightarrow> timestamp option) \<Rightarrow> raw_row \<Rightarrow> int option \<Rightarrow> int option \<Rightarrow> row" where
  "derive_row strptime r dm se =
     (let d = to_datetime strptime (r_date_added r) in
      \<lparr> title = r_title r, type = r_type r, country = r_country r,
        release_year = r_release_year r, rating = r_rating r, duration = r_duration r,
        listed_in = r_listed_in r, cast = r_cast r, director = r_director r,
        description = r_description r, date_added = d, other = r_other r,
        year_added = map_option ts_year d,
        month_added = map_option (\<lambda>t. month_name (ts_month t)) d,
        day_added = map_option day_name d,
        duration_min = dm, seasons = se,
        content_type = content_type_of (r_type r) \<rparr>)"

text \<open>
  The table: rows under their index labels, in order. \<open>read_csv\<close> labels the rows
  \<open>0, 1, 2, ...\<close>; selections keep the labels of the rows they keep.
\<close>

type_synonym frame = "(nat \<times> row) list"

definition preprocess_data :: "(string \<Rightarrow> timestamp option) \<Rightarrow> raw_row list \<Rightarrow> py_error + frame" where
  "preprocess_data strptime raws =
     (case apply_col duration_min_of (map r_duration raws) of
        Inl e \<Rightarrow> Inl e
      | Inr dms \<Rightarrow>
          (case apply_col seasons_of (map r_duration raws) of
             Inl e \<Rightarrow> Inl e
           | Inr ses \<Rightarrow>
               Inr (zip [0 ..< length raws]
                      (map (\<lambda>(r, dm, se). derive_row strptime r dm se) (zip raws (zip dms ses))))))"

section \<open>Counting\<close>

text \<open>
  \<open>collections.Counter\<close> is a dictionary that keeps its keys in the order of their first
  insertion: an association list here. \<open>bump\<close> is one increment, \<open>Counter\<close> counts a
  sequence, \<open>most_common\<close> sorts by count, largest first, with a stable sort, so that
  keys of equal count stay in the order of the dictionary.
\<close>

fun bump :: "('k \<times> nat) list \<Rightarrow> 'k \<Rightarrow> ('k \<times> nat) list" where
  "bump [] k = [(k, 1)]"
| "bump ((k', n) # kvs) k = (if k' = k then (k', Suc n) # kvs else (k', n) # bump kvs k)"

definition Counter :: "'k list \<Rightarrow> ('k \<times> nat) list" where
  "Counter xs = foldl bump [] xs"

definition most_common :: "('k \<times> nat) list \<Rightarrow> ('k \<times> nat) list" where
  "most_common kvs = sort_key (\<lambda>kv. - int (snd kv)) kvs"

text \<open>
  \<open>Series.value_counts()\<close> with its defaults (\<open>dropna=True\<close>, \<open>sort=True\<close>): missing
  cells are left out, the others are counted and listed by count, largest first. Equal
  counts are listed here in the order of first appearance; nothing below depends on the
  order among equal counts of \<open>value_counts\<close>.
\<close>

definition dropna :: "'a option list \<Rightarrow> 'a list" where
  "dropna col = List.map_filter (\<lambda>x. x) col"

definition value_counts :: "'a option list \<Rightarrow> ('a \<times> nat) list" where
  "value_counts col = most_common (Counter (dropna col))"

definition sort_index :: "('a::linorder \<times> nat) list \<Rightarrow> ('a \<times> nat) list" where
  "sort_index kvs = sort_key fst kvs"

definition country_analysis :: "frame \<Rightarrow> (string \<times> nat) list" where
  "country_analysis df = value_counts (map (\<lambda>e. country (snd e)) df)"

definition rating_analysis :: "frame \<Rightarrow> (string \<times> nat) list" where
  "rating_analysis df = value_counts (map (\<lambda>e. rating (snd e)) df)"

definition release_year_analysis :: "frame \<Rightarrow> (int \<times> nat) list" where
  "release_year_analysis df = sort_index (value_counts (map (\<lambda>e. release_year (snd e)) df))"

text \<open>The count a counting result gives for a key; a key it does not list has count 0.\<close>

definition count_of :: "('k \<times> nat) list \<Rightarrow> 'k \<Rightarrow> nat" where
  "count_of kvs k = (case map_of kvs k of None \<Rightarrow> 0 | Some n \<Rightarrow> n)"

text \<open>
  \<open>df.groupby([a, b]).size().unstack(fill_value=0)\<close>: with the default \<open>dropna=True\<close>
  a row whose key \<open>a\<close> or key \<open>b\<close> is missing belongs to no group. The result has one
  line per observed \<open>a\<close> and one cell per observed \<open>b\<close>, both sorted, and 0 where a
  combination does not occur.
\<close>

definition group_keys :: "(row \<Rightarrow> 'a option) \<Rightarrow> (row \<Rightarrow> 'b option) \<Rightarrow> frame \<Rightarrow> ('a \<times> 'b) list" where
  "group_keys ka kb df =
     List.map_filter
       (\<lambda>e. case ka (snd e) of
               None \<Rightarrow> None
             | Some a \<Rightarrow> (case kb (snd e) of None \<Rightarrow> None | Some b \<Rightarrow> Some (a, b))) df"

definition size_unstack :: "('a::linorder \<times> 'b::linorder) list \<Rightarrow> ('a \<times> ('b \<times> nat) list) list" where
  "size_unstack ps =
     (let outer = sort (remdups (map fst ps));
          inner = sort (remdups (map snd ps))
      in map (\<lambda>a. (a, map (\<lambda>b. (b, count_list ps (a, b))) inner)) outer)"

definition crosstab :: "(row \<Rightarrow> 'a::linorder option) \<Rightarrow> (row \<Rightarrow> 'b::linorder option) \<Rightarrow> frame
    \<Rightarrow> ('a \<times> ('b \<times> nat) list) list" where
  "crosstab ka kb df = size_unstack (group_keys ka kb df)"

definition advanced_content_analysis :: "frame \<Rightarrow>
    (int \<times> (string \<times> nat) list) list \<times> (string \<times> (string \<times> nat) list) list
      \<times> (int \<times> (string \<times> nat) list) list" where
  "advanced_content_analysis df =
     (crosstab release_year (\<lambda>r. Some (content_type r)) df,
      crosstab country (\<lambda>r. Some (content_type r)) df,
      crosstab release_year rating df)"

text \<open>The sum of one line of a cross-tabulation; a line that is absent sums to 0.\<close>

definition line_total :: "('a \<times> ('b \<times> nat) list) list \<Rightarrow> 'a \<Rightarrow> nat" where
  "line_total tab a = (case map_of tab a of None \<Rightarrow> 0 | Some cells \<Rightarrow> sum_list (map snd cells))"

section \<open>Genre pairs\<close>

text \<open>
  \<open>visualize_genres\<close>, source lines 412-422: for each row whose \<open>listed_in\<close> splits into
  more than one piece, the pair of stripped pieces at every two positions \<open>i < j\<close>.
\<close>

definition record_pairs :: "string list \<Rightarrow> (string \<times> string) list" where
  "record_pairs genres =
     concat (map (\<lambda>i. map (\<lambda>j. (strip (genres ! i), strip (genres ! j)))
                          [i + 1 ..< length genres])
                 [0 ..< length genres])"

definition str_split :: "string \<Rightarrow> string option \<Rightarrow> string list option" where
  "str_split sep x = map_option (split_on sep) x"

definition genre_pairs :: "frame \<Rightarrow> (string \<times> string) list" where
  "genre_pairs df =
     concat (map (\<lambda>e. case str_split '', '' (listed_in (snd e)) of
                         None \<Rightarrow> []
                       | Some genres \<Rightarrow> (if length genres > 1 then record_pairs genres else []))
                 df)"

definition pair_counts :: "frame \<Rightarrow> ((string \<times> string) \<times> nat) list" where
  "pair_counts df = Counter (genre_pairs df)"

definition top_pairs :: "frame \<Rightarrow> ((string \<times> string) \<times> nat) list" where
  "top_pairs df = take 10 (most_common (pair_counts df))"

text \<open>
  The pairs of a sequence by position, each element with every later one, written by
  recursion on the sequence; \<open>record_pairs\<close> is compared with it below.
\<close>

fun all_pairs :: "'a list \<Rightarrow> ('a \<times> 'a) list" where
  "all_pairs [] = []"
| "all_pairs (x # xs) = map (Pair x) xs @ all_pairs xs"

section \<open>Keywords\<close>

fun join :: "string \<Rightarrow> string list \<Rightarrow> string" where
  "join sep [] = []"
| "join sep [x] = x"
| "join sep (x # y # ys) = x @ sep @ join sep (y # ys)"

definition fillna :: "'a \<Rightarrow> 'a option \<Rightarrow> 'a" where
  "fillna d x = (case x of None \<Rightarrow> d | Some v \<Rightarrow> v)"

definition stop_words :: "string set" where
  "stop_words = set [''the'', ''a'', ''an'', ''and'', ''or'', ''but'', ''in'', ''on'', ''at'', ''to'',
     ''for'', ''of'', ''with'', ''by'', ''is'', ''are'', ''was'', ''were'', ''be'', ''been'', ''have'',
     ''has'', ''had'', ''do'', ''does'', ''did'', ''will'', ''would'', ''could'', ''should'', ''may'',
     ''might'', ''must'', ''can'', ''this'', ''that'', ''these'', ''those'', ''i'', ''you'', ''he'',
     ''she'', ''it'', ''we'', ''they'', ''them'', ''their'', ''what'', ''which'', ''who'', ''when'',
     ''where'', ''why'', ''how'', ''all'', ''any'', ''both'', ''each'', ''few'', ''more'', ''most'',
     ''other'', ''some'', ''such'', ''no'', ''nor'', ''not'', ''only'', ''own'', ''same'', ''so'',
     ''than'', ''too'', ''very'', ''just'', ''now'']"

text \<open>
  \<open>keyword_analysis\<close>, source lines 213-228: the token stream of the lowercased
  descriptions, the filter with the stopword set and the length bound of the source,
  and the counter of what is left, which the function returns. \<open>top_keywords\<close> is what
  it prints before: the first ten of \<open>most_common\<close>.
\<close>

definition description_words :: "frame \<Rightarrow> string list" where
  "description_words df =
     split_ws (join '' '' (map (\<lambda>e. lower (fillna [] (description (snd e)))) df))"

definition keyword_analysis :: "frame \<Rightarrow> (string \<times> nat) list" where
  "keyword_analysis df =
     Counter (filter (\<lambda>word. word \<notin> stop_words \<and> length word > 3) (description_words df))"

definition top_keywords :: "frame \<Rightarrow> (string \<times> nat) list" where
  "top_keywords df = take 10 (most_common (keyword_analysis df))"

text \<open>The position of the first occurrence of a value in a sequence.\<close>

definition first_index :: "'a list \<Rightarrow> 'a \<Rightarrow> nat" where
  "first_index xs x = length (takeWhile (\<lambda>y. y \<noteq> x) xs)"

section \<open>Pattern matching\<close>

text \<open>
  \<open>Series.str.contains(pat, case=False, na=False)\<close> is called without \<open>regex=False\<close>,
  so \<open>pat\<close> is compiled as a regular expression and each cell is searched with it,
  ignoring case. The model covers patterns written with ordinary characters and
  \<open>.\<close>, \<open>*\<close>, \<open>+\<close>, \<open>?\<close>, \<open>|\<close>, \<open>(\<close>, \<open>)\<close>; a pattern that uses any other
  construct (classes, anchors, braces, escapes, group extensions, lazy and possessive
  quantifiers) is handed to a parameter that stands for the rest of the library.
\<close>

datatype regex = Lit char | Dot | Eps | Seq regex regex | Alt regex regex | Star regex

datatype parsed = Parsed regex | Malformed | Beyond

text \<open>
  A nesting level of the parser: the finished branches of the alternation and the items
  of the branch being read, both newest first.
\<close>

type_synonym level = "regex list \<times> regex list"

definition mk_seq :: "regex list \<Rightarrow> regex" where
  "mk_seq items = foldr Seq items Eps"

fun mk_alt :: "regex list \<Rightarrow> regex" where
  "mk_alt [] = Eps"
| "mk_alt [r] = r"
| "mk_alt (r # r' # rs) = Alt r (mk_alt (r' # rs))"

definition close_level :: "level \<Rightarrow> regex" where
  "close_level l = mk_alt (rev (mk_seq (rev (snd l)) # fst l))"

definition quantify :: "char \<Rightarrow> regex \<Rightarrow> regex" where
  "quantify c r =
     (if c = CHR ''*'' then Star r
      else if c = CHR ''+'' then Seq r (Star r)
      else Alt r Eps)"

definition beyond_chars :: "char set" where
  "beyond_chars = {CHR ''^'', CHR ''$'', CHR ''{'', CHR ''}'', CHR ''['', CHR '']'', CHR 0x5C}"


text \<open>
  One pass over the pattern. \<open>q\<close> says that the last item has just been quantified: a
  second \<open>*\<close> is then an error (multiple repeat), a \<open>?\<close> or \<open>+\<close> a lazy or possessive
  quantifier. A quantifier with nothing before it, a \<open>)\<close> that closes nothing and a
  \<open>(\<close> left open at the end are errors.
\<close>

fun parse_from :: "level \<Rightarrow> level list \<Rightarrow> bool \<Rightarrow> string \<Rightarrow> parsed" where
  "parse_from cur stack q [] = (if stack = [] then Parsed (close_level cur) else Malformed)"
| "parse_from cur stack q (c # cs) =
     (if c = CHR ''('' then
        (if (case cs of [] \<Rightarrow> False | d # _ \<Rightarrow> d = CHR ''?'') then Beyond
         else parse_from ([], []) (cur # stack) False cs)
      else if c = CHR '')'' then
        (case stack of
           [] \<Rightarrow> Malformed
         | outer # stack' \<Rightarrow> parse_from (fst outer, close_level cur # snd outer) stack' False cs)
      else if c = CHR ''|'' then parse_from (mk_seq (rev (snd cur)) # fst cur, []) stack False cs
      else if c = CHR ''*'' \<or> c = CHR ''+'' \<or> c = CHR ''?'' then
        (case snd cur of
           [] \<Rightarrow> Malformed
         | r # rs \<Rightarrow>
             (if q then (if c = CHR ''*'' then Malformed else Beyond)
              else parse_from (fst cur, quantify c r # rs) stack True cs))
      else if c = CHR ''.'' then parse_from (fst cur, Dot # snd cur) stack False cs
      else if c \<in> beyond_chars then Beyond
      else parse_from (fst cur, Lit c # snd cur) stack False cs)"

definition parse :: "string \<Rightarrow> parsed" where
  "parse pat = parse_from ([], []) [] False pat"

text \<open>
  Matching by backtracking: \<open>residuals r s\<close> lists what is left of \<open>s\<close> after each way
  in which \<open>r\<close> matches a beginning of \<open>s\<close>. A letter matches in either case, \<open>.\<close>
  matches any character but the newline. A repetition goes round again only after a
  round that consumed something, so \<open>length s\<close> rounds reach every residual.
\<close>

fun iter_star :: "nat \<Rightarrow> (string \<Rightarrow> string list) \<Rightarrow> string \<Rightarrow> string list" where
  "iter_star 0 f s = [s]"
| "iter_star (Suc n) f s =
     s # concat (map (iter_star n f) (filter (\<lambda>t. length t < length s) (f s)))"

fun residuals :: "regex \<Rightarrow> string \<Rightarrow> string list" where
  "residuals (Lit a) s =
     (case s of [] \<Rightarrow> [] | c # cs \<Rightarrow> (if lower_char c = lower_char a then [cs] else []))"
| "residuals Dot s = (case s of [] \<Rightarrow> [] | c # cs \<Rightarrow> (if c = CHR 0x0A then [] else [cs]))"
| "residuals Eps s = [s]"
| "residuals (Seq r1 r2) s = concat (map (residuals r2) (residuals r1 s))"
| "residuals (Alt r1 r2) s = residuals r1 s @ residuals r2 s"
| "residuals (Star r) s = iter_star (length s) (residuals r) s"

text \<open>\<open>pattern.search(s)\<close>: a match that begins at some position of \<open>s\<close>.\<close>

definition re_search :: "regex \<Rightarrow> string \<Rightarrow> bool" where
  "re_search r s = list_ex (\<lambda>t. residuals r t \<noteq> []) (suffixes s)"

type_synonym re_engine = "string \<Rightarrow> py_error + (string \<Rightarrow> bool)"

definition re_compile :: "re_engine \<Rightarrow> string \<Rightarrow> py_error + (string \<Rightarrow> bool)" where
  "re_compile lib pat =
     (case parse pat of
        Parsed r \<Rightarrow> Inr (re_search r)
      | Malformed \<Rightarrow> Inl RegexError
      | Beyond \<Rightarrow> lib pat)"

text \<open>
  The dtype of a text column. A cell \<open>Some s\<close> is a cell that holds the text \<open>s\<close>, a
  \<open>str\<close>; a cell that \<open>read_csv\<close> reads as a number has no text and is no cell of a
  text column here. The table is loaded by \<open>read_csv\<close> (line 22) and in no other way:
  a column in which some cell holds text has the dtype object, and so has every column
  of a table without rows; a column of a table with rows in which every cell is missing
  is read as float64. A selection of rows keeps the dtype of the column of the table.
\<close>

definition text_dtype :: "string option list \<Rightarrow> bool" where
  "text_dtype cells = (cells = [] \<or> list_ex (\<lambda>x. x \<noteq> None) cells)"

definition has_text :: "(row \<Rightarrow> string option) \<Rightarrow> frame \<Rightarrow> bool" where
  "has_text col df = text_dtype (map (\<lambda>e. col (snd e)) df)"

text \<open>Every cell of a column that is present holds ASCII text.\<close>

definition ascii_column :: "(row \<Rightarrow> string option) \<Rightarrow> frame \<Rightarrow> bool" where
  "ascii_column col df =
     list_all (\<lambda>e. case col (snd e) of None \<Rightarrow> True | Some s \<Rightarrow> ascii_text s) df"

text \<open>
  \<open>column.str\<close>: the accessor raises AttributeError on a column that is not of text
  dtype. \<open>whole\<close> is the column of the table.
\<close>

definition str_accessor :: "string option list \<Rightarrow> py_error + unit" where
  "str_accessor whole = (if text_dtype whole then Inr () else Inl AttributeError)"

text \<open>
  \<open>column.str.contains(pat, case=False, na=False)\<close> on the cells \<open>cells\<close> of a column
  whose cells in the table are \<open>whole\<close>: first the accessor, then the pattern is
  compiled, once and before any cell is looked at; a missing cell gives \<open>False\<close>.
\<close>

definition str_contains :: "re_engine \<Rightarrow> string \<Rightarrow> string option list \<Rightarrow> string option list
    \<Rightarrow> py_error + bool list" where
  "str_contains lib pat whole cells =
     (case str_accessor whole of
        Inl e \<Rightarrow> Inl e
      | Inr _ \<Rightarrow>
          (case re_compile lib pat of
             Inl e \<Rightarrow> Inl e
           | Inr found \<Rightarrow>
               Inr (map (\<lambda>x. case x of None \<Rightarrow> False | Some s \<Rightarrow> found s) cells)))"

section \<open>Search\<close>

text \<open>Boolean indexing \<open>df[mask]\<close>: the rows whose mask cell is true, labels kept.\<close>

definition select :: "bool list \<Rightarrow> frame \<Rightarrow> frame" where
  "select keep df = map fst (filter snd (zip df keep))"



text \<open>
  Deduplication keeping the first occurrence, written by recursion: an entry stays, and
  every later entry with the same cells goes. \<open>drop_duplicates\<close> is compared with it
  below.
\<close>

fun keep_first :: "frame \<Rightarrow> frame" where
  "keep_first [] = []"
| "keep_first (e # es) = e # filter (\<lambda>e'. snd e' \<noteq> snd e) (keep_first es)"



text \<open>
  \<open>sel[sel[col].str.contains(query, case=False, na=False)]\<close> for a selection \<open>sel\<close> of
  the rows of the table \<open>table\<close>.
\<close>

definition column_matches :: "re_engine \<Rightarrow> string \<Rightarrow> (row \<Rightarrow> string option) \<Rightarrow> frame \<Rightarrow> frame
    \<Rightarrow> py_error + frame" where
  "column_matches lib query col table sel =
     (case str_contains lib query (map (\<lambda>e. col (snd e)) table) (map (\<lambda>e. col (snd e)) sel) of
        Inl e \<Rightarrow> Inl e
      | Inr hits \<Rightarrow> Inr (select hits sel))"






section \<open>Recommendation\<close>












section \<open>Example data\<close>

text \<open>A CSV row and a preprocessed row with every cell missing, to build examples from.\<close>

definition blank_raw :: raw_row where
  "blank_raw =
     \<lparr> r_title = None, r_type = None, r_country = None, r_release_year = None,
       r_rating = None, r_duration = None, r_listed_in = None, r_cast = None,
       r_director = None, r_description = None, r_date_added = None, r_other = [] \<rparr>"

definition blank_row :: row where
  "blank_row =
     \<lparr> title = None, type = None, country = None, release_year = None, rating = None,
       duration = None, listed_in = None, cast = None, director = None, description = None,
       date_added = None, other = [], year_added = None, month_added = None, day_added = None,
       duration_min = None, seasons = None, content_type = ''TV Show'' \<rparr>"


text \<open>Two titles, one without a country.\<close>

definition two_titles :: frame where
  "two_titles =
     [(0, blank_row\<lparr>title := Some ''A'', country := Some ''India''\<rparr>),
      (1, blank_row\<lparr>title := Some ''B''\<rparr>)]"

text \<open>Three titles, one without a rating.\<close>

definition rated :: frame where
  "rated =
     [(0, blank_row\<lparr>title := Some ''A'', release_year := Some 2020, rating := Some ''PG''\<rparr>),
      (1, blank_row\<lparr>title := Some ''B'', release_year := Some 2020\<rparr>),
      (2, blank_row\<lparr>title := Some ''C'', release_year := Some 2021, rating := Some ''R''\<rparr>)]"

text \<open>Three titles with descriptions, one of them missing.\<close>

definition described :: frame where
  "described =
     [(0, blank_row\<lparr>title := Some ''A'', description := Some ''A quiet town hides the Secret''\<rparr>),
      (1, blank_row\<lparr>title := Some ''B''\<rparr>),
      (2, blank_row\<lparr>title := Some ''C'', description := Some ''Secret agents leave town''\<rparr>)]"

text \<open>Titles that list genres: the same two in both orders, one genre twice, three genres.\<close>

definition swapped_genres :: frame where
  "swapped_genres =
     [(0, blank_row\<lparr>title := Some ''A'', listed_in := Some ''Dramas, Comedies''\<rparr>),
      (1, blank_row\<lparr>title := Some ''B'', listed_in := Some ''Comedies, Dramas''\<rparr>)]"

definition repeated_genre :: frame where
  "repeated_genre = [(0, blank_row\<lparr>title := Some ''A'', listed_in := Some ''Dramas, Dramas''\<rparr>)]"

definition three_genres :: row where
  "three_genres = blank_row\<lparr>title := Some ''A'', listed_in := Some ''Dramas, Comedies, Thrillers''\<rparr>"










section \<open>Properties of the field derivation\<close>

lemmas eval_text = split_on_def py_int_def strip_def is_space_def is_blank_def unsigned_int_def
  digit_val_def
  str_of_def leading_int_def duration_min_of_def seasons_of_def

lemma py_in_iff_sublist: "py_in sub s \<longleftrightarrow> sublist sub s"
  by (induction s) (auto simp: sublist_Cons_right)

text \<open>The first piece of \<open>s.split(' ')\<close> is the text before the first space.\<close>

lemma split_acc_space:
  "\<exists>rest. split_acc '' '' acc s = (rev acc @ takeWhile (\<lambda>c. c \<noteq> CHR '' '') s) # rest"
proof (induction s arbitrary: acc)
  case Nil
  show ?case by simp
next
  case (Cons c cs)
  show ?case
  proof (cases "c = CHR '' ''")
    case True
    then show ?thesis by simp
  next
    case False
    with Cons [of "c # acc"] show ?thesis by simp
  qed
qed

lemma leading_int_eq:
  "leading_int (Some s) =
     (case py_int (takeWhile (\<lambda>c. c \<noteq> CHR '' '') s) of None \<Rightarrow> Inl ValueError | Some n \<Rightarrow> Inr n)"
proof -
  obtain rest where "split_on '' '' s = takeWhile (\<lambda>c. c \<noteq> CHR '' '') s # rest"
    using split_acc_space [of "[]" s] by (auto simp: split_on_def)
  then show ?thesis by (simp add: leading_int_def)
qed

lemma apply_col_total:
  "\<forall>x \<in> set xs. \<exists>y. f x = Inr y \<Longrightarrow> \<exists>ys. apply_col f xs = Inr ys \<and> length ys = length xs"
proof (induction xs)
  case Nil
  show ?case by simp
next
  case (Cons x xs)
  then obtain y ys where "f x = Inr y" "apply_col f xs = Inr ys" "length ys = length xs"
    by auto
  then show ?case by simp
qed

text \<open>
  Where every duration cell is derived without an exception, preprocessing keeps every
  row, under the labels \<open>0, 1, 2, ...\<close>, whatever the dates are.
\<close>

lemma preprocess_data_total:
  assumes "\<forall>r \<in> set raws. \<exists>dm se. duration_min_of (r_duration r) = Inr dm
              \<and> seasons_of (r_duration r) = Inr se"
  shows "\<exists>df. preprocess_data strptime raws = Inr df \<and> map fst df = [0 ..< length raws]"
proof -
  from assms have "\<forall>x \<in> set (map r_duration raws). \<exists>y. duration_min_of x = Inr y" by auto
  from apply_col_total [OF this] obtain dms
    where dms: "apply_col duration_min_of (map r_duration raws) = Inr dms" "length dms = length raws"
    by auto
  from assms have "\<forall>x \<in> set (map r_duration raws). \<exists>y. seasons_of x = Inr y" by auto
  from apply_col_total [OF this] obtain ses
    where ses: "apply_col seasons_of (map r_duration raws) = Inr ses" "length ses = length raws"
    by auto
  show ?thesis using dms ses by (simp add: preprocess_data_def)
qed

text \<open>
  C2, at the failing input. The claim: field derivation never raises and never discards
  a record; a malformed duration only makes that record's derived field null. The
  code: on a table whose second row has the duration \<open>about 90 min\<close>, the text before
  the first space is not an integer, \<open>int\<close> raises ValueError inside \<open>apply\<close>, and
  \<open>preprocess_data\<close> produces no row at all, the well-formed first row included.
\<close>

theorem preprocess_data_malformed_duration:
  "preprocess_data strptime
     [blank_raw\<lparr>r_title := Some ''A'', r_duration := Some ''90 min''\<rparr>,
      blank_raw\<lparr>r_title := Some ''B'', r_duration := Some ''about 90 min''\<rparr>]
   = Inl ValueError"
  by (simp add: preprocess_data_def eval_text)

text \<open>
  C3, as amended. For every raw duration string \<open>s\<close>: if \<open>s\<close> contains neither \<open>min\<close>
  nor \<open>Season\<close>, both derived fields are null. If the text before the first space of
  \<open>s\<close> reads as the integer \<open>n\<close>, then \<open>duration_min\<close> is \<open>n\<close> when \<open>s\<close> contains
  \<open>min\<close> and null otherwise, and \<open>seasons\<close> is \<open>n\<close> when \<open>s\<close> contains \<open>Season\<close> and
  null otherwise; the two tests are independent, so a string that contains both
  substrings sets both fields.
\<close>

theorem duration_fields:
  "(\<not> sublist ''min'' s \<and> \<not> sublist ''Season'' s \<longrightarrow>
      duration_min_of (Some s) = Inr None \<and> seasons_of (Some s) = Inr None)
   \<and> (py_int (takeWhile (\<lambda>c. c \<noteq> CHR '' '') s) = Some n \<longrightarrow>
        duration_min_of (Some s) = Inr (if sublist ''min'' s then Some n else None)
      \<and> seasons_of (Some s) = Inr (if sublist ''Season'' s then Some n else None))"
  by (simp add: duration_min_of_def seasons_of_def str_of_def py_in_iff_sublist leading_int_eq)

theorem duration_fields_witness:
  "py_int (takeWhile (\<lambda>c. c \<noteq> CHR '' '') ''90 min'') = Some 90
   \<and> duration_min_of (Some ''90 min'') = Inr (Some 90) \<and> seasons_of (Some ''90 min'') = Inr None"
proof -
  have h: "py_int (takeWhile (\<lambda>c. c \<noteq> CHR '' '') ''90 min'') = Some 90"
    by (simp add: py_int_def is_blank_def unsigned_int_def digit_val_def)
  have m: "sublist ''min'' ''90 min''" "\<not> sublist ''Season'' ''90 min''"
    by (simp_all add: py_in_iff_sublist [symmetric])
  from duration_fields [of "''90 min''" 90] h m show ?thesis by simp
qed

text \<open>
  C3 as stated fails: the string \<open>2 Seasons 45 min\<close> contains \<open>min\<close>, yet \<open>seasons\<close> is
  not null, and both fields are non-null.
\<close>

theorem duration_both_fields_set:
  "duration_min_of (Some ''2 Seasons 45 min'') = Inr (Some 2)
   \<and> seasons_of (Some ''2 Seasons 45 min'') = Inr (Some 2)"
  by (simp add: eval_text)

section \<open>Properties of counting\<close>

lemma Counter_snoc: "Counter (xs @ [x]) = bump (Counter xs) x"
  by (simp add: Counter_def)

lemma map_of_bump: "map_of (bump kvs k) = (map_of kvs)(k \<mapsto> Suc (count_of kvs k))"
  by (induction kvs k rule: bump.induct) (auto simp: count_of_def fun_eq_iff)

lemma keys_bump:
  "map fst (bump kvs k) = (if k \<in> set (map fst kvs) then map fst kvs else map fst kvs @ [k])"
  by (induction kvs k rule: bump.induct) auto

lemma sum_bump: "sum_list (map snd (bump kvs k)) = Suc (sum_list (map snd kvs))"
  by (induction kvs k rule: bump.induct) auto

lemma keys_Counter: "map fst (Counter xs) = rev (remdups (rev xs))"
proof (induction xs rule: rev_induct)
  case Nil
  show ?case by (simp add: Counter_def)
next
  case (snoc x xs)
  have "set (map fst (Counter xs)) = set xs" by (simp add: snoc)
  then show ?case by (simp add: Counter_snoc keys_bump snoc)
qed

lemma distinct_keys_Counter: "distinct (map fst (Counter xs))"
  by (simp add: keys_Counter)

lemma map_of_Counter:
  "map_of (Counter xs) k = (if k \<in> set xs then Some (count_list xs k) else None)"
proof (induction xs rule: rev_induct)
  case Nil
  show ?case by (simp add: Counter_def)
next
  case (snoc x xs)
  then show ?case by (auto simp: Counter_snoc map_of_bump count_of_def)
qed

lemma count_of_Counter: "count_of (Counter xs) k = count_list xs k"
  by (simp add: count_of_def map_of_Counter count_list_0_iff)

lemma sum_Counter: "sum_list (map snd (Counter xs)) = length xs"
  by (induction xs rule: rev_induct) (simp_all add: Counter_snoc sum_bump Counter_def)

lemma sum_insort_key:
  fixes g :: "'a \<Rightarrow> nat"
  shows "sum_list (map g (insort_key f x xs)) = g x + sum_list (map g xs)"
  by (induction xs) auto

lemma sum_sort_key:
  fixes g :: "'a \<Rightarrow> nat"
  shows "sum_list (map g (sort_key f xs)) = sum_list (map g xs)"
  by (induction xs) (auto simp: sum_insort_key)

lemma map_of_sort_key:
  assumes "distinct (map fst kvs)"
  shows "map_of (sort_key f kvs) = map_of kvs"
proof -
  have "mset (map fst (sort_key f kvs)) = mset (map fst kvs)" by simp
  then have "distinct (map fst (sort_key f kvs))"
    using assms by (metis mset_eq_imp_distinct_iff)
  moreover have "set (sort_key f kvs) = set kvs" by simp
  ultimately show ?thesis using assms by (simp add: map_of_inject_set)
qed

lemma count_of_most_common: "count_of (most_common (Counter xs)) k = count_list xs k"
  by (simp add: count_of_def most_common_def map_of_sort_key distinct_keys_Counter map_of_Counter
      count_list_0_iff)

lemma length_dropna: "length (dropna col) = length (filter (\<lambda>x. x \<noteq> None) col)"
  by (induction col) (auto simp: dropna_def split: option.splits)

lemma count_list_dropna: "count_list (dropna col) k = length (filter (\<lambda>x. x = Some k) col)"
  by (induction col) (auto simp: dropna_def split: option.splits)

lemma sum_value_counts:
  "sum_list (map snd (value_counts col)) = length (filter (\<lambda>x. x \<noteq> None) col)"
  by (simp add: value_counts_def most_common_def sum_sort_key sum_Counter length_dropna)

lemma count_of_value_counts:
  "count_of (value_counts col) k = length (filter (\<lambda>x. x = Some k) col)"
  by (simp add: value_counts_def count_of_most_common count_list_dropna)

text \<open>
  C1, as amended. For every table and every key column, \<open>value_counts\<close> leaves out the
  rows whose key is missing: the count of a key is the number of rows with that key, and
  the counts sum to the number of rows whose key is present. This holds for
  \<open>country_analysis\<close> and \<open>rating_analysis\<close> in particular.
\<close>

theorem value_counts_total:
  "count_of (value_counts (map (\<lambda>e. key (snd e)) df)) k
     = length (filter (\<lambda>e. key (snd e) = Some k) df)
   \<and> sum_list (map snd (value_counts (map (\<lambda>e. key (snd e)) df)))
     = length (filter (\<lambda>e. key (snd e) \<noteq> None) df)
   \<and> sum_list (map snd (country_analysis df)) = length (filter (\<lambda>e. country (snd e) \<noteq> None) df)
   \<and> sum_list (map snd (rating_analysis df)) = length (filter (\<lambda>e. rating (snd e) \<noteq> None) df)"
  by (simp add: country_analysis_def rating_analysis_def sum_value_counts count_of_value_counts
      filter_map o_def)

text \<open>
  C1 as stated fails: of two titles, one without a country, only the other is counted;
  there is no bucket for the missing key and the counts sum to 1, not 2.
\<close>

theorem value_counts_drops_null:
  "country_analysis two_titles = [(''India'', 1)]
   \<and> sum_list (map snd (country_analysis two_titles)) \<noteq> length two_titles"
  by (simp add: country_analysis_def value_counts_def most_common_def Counter_def dropna_def
      List.map_filter_simps two_titles_def blank_row_def)

section \<open>Properties of the cross-tabulation\<close>

lemma sum_count_pairs:
  assumes "finite B" "snd ` set ps \<subseteq> B"
  shows "(\<Sum>b\<in>B. count_list ps (a, b)) = length (filter (\<lambda>p. fst p = a) ps)"
  using assms(2)
proof (induction ps)
  case Nil
  show ?case by simp
next
  case (Cons p ps)
  obtain a' b' where p: "p = (a', b')" by (cases p)
  from Cons.prems p have b': "b' \<in> B" by simp
  have "(\<Sum>b\<in>B. count_list (p # ps) (a, b))
        = (\<Sum>b\<in>B. count_list ps (a, b) + (if a' = a \<and> b' = b then 1 else 0))"
    by (rule sum.cong) (auto simp: p)
  also have "\<dots> = (\<Sum>b\<in>B. count_list ps (a, b)) + (\<Sum>b\<in>B. if a' = a \<and> b' = b then 1 else 0)"
    by (simp add: sum.distrib)
  also have "(\<Sum>b\<in>B. if a' = a \<and> b' = b then 1 else 0) = (if a' = a then 1 else (0::nat))"
    using assms(1) b' by (cases "a' = a") simp_all
  finally show ?case using Cons by (simp add: p)
qed

lemma line_total_size_unstack:
  "line_total (size_unstack ps) a = length (filter (\<lambda>p. fst p = a) ps)"
proof -
  let ?inner = "sort (remdups (map snd ps))"
  have cells: "sum_list (map snd (map (\<lambda>b. (b, count_list ps (a, b))) ?inner))
        = length (filter (\<lambda>p. fst p = a) ps)"
  proof -
    have "sum_list (map snd (map (\<lambda>b. (b, count_list ps (a, b))) ?inner))
          = sum_list (map (\<lambda>b. count_list ps (a, b)) ?inner)"
      by (simp add: o_def)
    also have "\<dots> = (\<Sum>b\<in>set ?inner. count_list ps (a, b))"
      by (rule sum_list_distinct_conv_sum_set) simp
    also have "\<dots> = length (filter (\<lambda>p. fst p = a) ps)"
      by (rule sum_count_pairs) simp_all
    finally show ?thesis .
  qed
  show ?thesis
  proof (cases "a \<in> fst ` set ps")
    case True
    then have "map_of (map (\<lambda>a. (a, map (\<lambda>b. (b, count_list ps (a, b))) ?inner))
                 (sort (remdups (map fst ps)))) a
               = Some (map (\<lambda>b. (b, count_list ps (a, b))) ?inner)"
      by (simp add: map_of_map_restrict)
    then show ?thesis using cells by (simp add: line_total_def size_unstack_def Let_def)
  next
    case False
    then have "map_of (map (\<lambda>a. (a, map (\<lambda>b. (b, count_list ps (a, b))) ?inner))
                 (sort (remdups (map fst ps)))) a = None"
      by (simp add: map_of_map_restrict)
    moreover from False have "filter (\<lambda>p. fst p = a) ps = []"
      by (auto simp: filter_empty_conv)
    ultimately show ?thesis by (simp add: line_total_def size_unstack_def Let_def)
  qed
qed

lemma filter_group_keys:
  "length (filter (\<lambda>p. fst p = a) (group_keys ka kb df))
   = length (filter (\<lambda>e. ka (snd e) = Some a \<and> kb (snd e) \<noteq> None) df)"
  by (induction df) (auto simp: group_keys_def List.map_filter_simps split: option.splits)

lemma line_total_crosstab:
  "line_total (crosstab ka kb df) a
   = length (filter (\<lambda>e. ka (snd e) = Some a \<and> kb (snd e) \<noteq> None) df)"
  by (simp add: crosstab_def line_total_size_unstack filter_group_keys)

lemma count_of_sort_index:
  "distinct (map fst kvs) \<Longrightarrow> count_of (sort_index kvs) k = count_of kvs k"
  by (simp add: count_of_def sort_index_def map_of_sort_key)

lemma distinct_keys_value_counts: "distinct (map fst (value_counts col))"
proof -
  have "mset (map fst (value_counts col)) = mset (map fst (Counter (dropna col)))"
    by (simp add: value_counts_def most_common_def)
  then show ?thesis using distinct_keys_Counter by (metis mset_eq_imp_distinct_iff)
qed

text \<open>
  C9, as amended. For every table, every two key selectors and every outer key \<open>a\<close>: the
  line of the cross-tabulation for \<open>a\<close> sums to the number of rows with outer key \<open>a\<close>
  and an inner key that is present, while the single-key count of \<open>a\<close> is the number of
  all rows with outer key \<open>a\<close>. The two agree when no row with outer key \<open>a\<close> has a
  missing inner key.
\<close>

theorem crosstab_line_total:
  "line_total (crosstab ka kb df) a
     = length (filter (\<lambda>e. ka (snd e) = Some a \<and> kb (snd e) \<noteq> None) df)
   \<and> count_of (value_counts (map (\<lambda>e. ka (snd e)) df)) a
     = length (filter (\<lambda>e. ka (snd e) = Some a) df)
   \<and> ((\<forall>e \<in> set df. ka (snd e) = Some a \<longrightarrow> kb (snd e) \<noteq> None) \<longrightarrow>
        line_total (crosstab ka kb df) a = count_of (value_counts (map (\<lambda>e. ka (snd e)) df)) a)"
proof -
  have 1: "line_total (crosstab ka kb df) a
     = length (filter (\<lambda>e. ka (snd e) = Some a \<and> kb (snd e) \<noteq> None) df)"
    by (rule line_total_crosstab)
  have 2: "count_of (value_counts (map (\<lambda>e. ka (snd e)) df)) a
     = length (filter (\<lambda>e. ka (snd e) = Some a) df)"
    by (simp add: count_of_value_counts filter_map o_def)
  have 3: "line_total (crosstab ka kb df) a = count_of (value_counts (map (\<lambda>e. ka (snd e)) df)) a"
    if "\<forall>e \<in> set df. ka (snd e) = Some a \<longrightarrow> kb (snd e) \<noteq> None"
  proof -
    from that have "filter (\<lambda>e. ka (snd e) = Some a \<and> kb (snd e) \<noteq> None) df
      = filter (\<lambda>e. ka (snd e) = Some a) df"
      by (intro filter_cong) auto
    then show ?thesis by (simp add: 1 2)
  qed
  from 1 2 3 show ?thesis by blast
qed

theorem crosstab_line_total_witness:
  "line_total (crosstab release_year rating rated) 2021 = 1
   \<and> count_of (value_counts (map (\<lambda>e. release_year (snd e)) rated)) 2021 = 1"
proof -
  have h: "\<forall>e \<in> set rated. release_year (snd e) = Some 2021 \<longrightarrow> rating (snd e) \<noteq> None"
    by (simp add: rated_def blank_row_def)
  have n: "length (filter (\<lambda>e. release_year (snd e) = Some 2021) rated) = 1"
    by (simp add: rated_def blank_row_def)
  from crosstab_line_total [of release_year rating rated 2021] h n show ?thesis by simp
qed

text \<open>
  C9 as stated fails: two titles are of 2020, one of them without a rating; the line of
  2020 in the rating-by-year table of \<open>advanced_content_analysis\<close> sums to 1, the
  count of 2020 in \<open>release_year_analysis\<close> is 2.
\<close>

theorem crosstab_drops_null_inner:
  "line_total (snd (snd (advanced_content_analysis rated))) 2020 = 1
   \<and> count_of (release_year_analysis rated) 2020 = 2"
  apply (simp add: advanced_content_analysis_def line_total_crosstab)
  apply (simp add: release_year_analysis_def count_of_sort_index distinct_keys_value_counts
      count_of_value_counts)
  apply (simp add: rated_def blank_row_def)
  done

section \<open>Properties of the keyword ranking\<close>

lemma first_index_Cons:
  "first_index (x # xs) a = (if x = a then 0 else Suc (first_index xs a))"
  by (simp add: first_index_def)

lemma first_index_less_length: "a \<in> set xs \<Longrightarrow> first_index xs a < length xs"
  unfolding first_index_def by (induction xs) auto

lemma first_index_snoc:
  "first_index (xs @ [x]) a = (if a \<in> set xs then first_index xs a
     else if a = x then length xs else Suc (length xs))"
  unfolding first_index_def by (induction xs) auto

text \<open>The keys of a counter stand in the order of their first occurrence.\<close>

lemma keys_by_first_index:
  "sorted_wrt (\<lambda>a b. first_index xs a < first_index xs b) (rev (remdups (rev xs)))"
proof (induction xs rule: rev_induct)
  case Nil
  show ?case by simp
next
  case (snoc x xs)
  have old: "sorted_wrt (\<lambda>a b. first_index (xs @ [x]) a < first_index (xs @ [x]) b)
               (rev (remdups (rev xs)))"
    by (rule sorted_wrt_mono_rel [OF _ snoc.IH]) (simp add: first_index_snoc)
  show ?case
  proof (cases "x \<in> set xs")
    case True
    with old show ?thesis by simp
  next
    case False
    with old show ?thesis
      by (auto simp: sorted_wrt_append first_index_snoc first_index_less_length)
  qed
qed

lemma first_index_filter:
  assumes "P a" "P b"
  shows "first_index (filter P xs) a < first_index (filter P xs) b
         \<longleftrightarrow> first_index xs a < first_index xs b"
  using assms by (induction xs) (auto simp: first_index_Cons)

text \<open>A stable sort refines an order that is already there.\<close>

lemma insort_key_refines:
  fixes f :: "'a \<Rightarrow> 'k::linorder"
  assumes "sorted_wrt (\<lambda>a b. f a < f b \<or> (f a = f b \<and> P a b)) ys" "\<forall>y\<in>set ys. P x y"
  shows "sorted_wrt (\<lambda>a b. f a < f b \<or> (f a = f b \<and> P a b)) (insort_key f x ys)"
  using assms
proof (induction ys)
  case Nil
  show ?case by simp
next
  case (Cons y ys)
  show ?case
  proof (cases "f x \<le> f y")
    case True
    with Cons.prems show ?thesis by (fastforce simp: less_le)
  next
    case False
    with Cons show ?thesis by (auto simp: set_insort_key)
  qed
qed

lemma sort_key_refines:
  fixes f :: "'a \<Rightarrow> 'k::linorder"
  assumes "sorted_wrt P xs"
  shows "sorted_wrt (\<lambda>a b. f a < f b \<or> (f a = f b \<and> P a b)) (sort_key f xs)"
  using assms
proof (induction xs)
  case Nil
  show ?case by simp
next
  case (Cons x xs)
  then show ?case by (simp add: insort_key_refines)
qed

lemma in_Counter_iff: "(k, c) \<in> set (Counter xs) \<longleftrightarrow> k \<in> set xs \<and> c = count_list xs k"
proof -
  have "(k, c) \<in> set (Counter xs) \<longleftrightarrow> map_of (Counter xs) k = Some c"
    using distinct_keys_Counter [of xs] by simp
  then show ?thesis by (auto simp: map_of_Counter)
qed

lemma count_list_filter: "P w \<Longrightarrow> count_list (filter P xs) w = count_list xs w"
  by (induction xs) auto

lemma Counter_by_first_index:
  "sorted_wrt (\<lambda>a b. first_index xs (fst a) < first_index xs (fst b)) (Counter xs)"
  using keys_by_first_index [of xs] by (simp add: keys_Counter [symmetric] sorted_wrt_map)

lemma most_common_ranked:
  "sorted_wrt (\<lambda>a b. snd b < snd a \<or> (snd a = snd b \<and> first_index xs (fst a) < first_index xs (fst b)))
     (most_common (Counter xs))"
proof -
  have "sorted_wrt (\<lambda>a b. - int (snd a) < - int (snd b)
            \<or> (- int (snd a) = - int (snd b) \<and> first_index xs (fst a) < first_index xs (fst b)))
          (sort_key (\<lambda>kv. - int (snd kv)) (Counter xs))"
    by (rule sort_key_refines [OF Counter_by_first_index])
  then show ?thesis
    unfolding most_common_def by (rule sorted_wrt_mono_rel [rotated]) auto
qed

lemma lower_join_any: "lower (join sep xs) = join (lower sep) (map lower xs)"
  by (induction sep xs rule: join.induct) (simp_all add: lower_def)

lemma lower_join: "lower (join '' '' xs) = join '' '' (map lower xs)"
  by (simp add: lower_join_any) (simp add: lower_def lower_char_def ascii_uppercase_def ascii_lowercase_def)

text \<open>
  C7, as amended. For every table whose descriptions are ASCII text: the token stream is
  the whitespace tokens of the lowercased, space-joined descriptions; \<open>keyword_analysis\<close>
  returns a counter that lists each token that is not one of the stopwords of the source
  and is longer than 3 characters exactly once, with the number of its occurrences in
  the stream, in the order of first occurrence in the stream. It is not ranked: the
  ranking by count descending, and among equal counts by first occurrence in the
  stream, is \<open>most_common\<close> of the returned counter, of which the function prints the
  first ten.
\<close>

theorem keyword_counter:
  assumes "ascii_column description df"
  shows "description_words df
           = split_ws (lower (join '' '' (map (\<lambda>e. fillna [] (description (snd e))) df)))
   \<and> distinct (map fst (keyword_analysis df))
   \<and> set (map fst (keyword_analysis df))
       = {w \<in> set (description_words df). w \<notin> stop_words \<and> 3 < length w}
   \<and> (\<forall>(w, c) \<in> set (keyword_analysis df). c = count_list (description_words df) w)
   \<and> sorted_wrt (\<lambda>a b. first_index (description_words df) (fst a)
                          < first_index (description_words df) (fst b))
        (keyword_analysis df)
   \<and> top_keywords df = take 10 (most_common (keyword_analysis df))
   \<and> set (most_common (keyword_analysis df)) = set (keyword_analysis df)
   \<and> sorted_wrt (\<lambda>a b. snd b < snd a
          \<or> (snd a = snd b
              \<and> first_index (description_words df) (fst a) < first_index (description_words df) (fst b)))
        (most_common (keyword_analysis df))"
proof -
  let ?toks = "description_words df"
  let ?Q = "\<lambda>word. word \<notin> stop_words \<and> length word > 3"
  let ?kept = "filter ?Q ?toks"
  let ?K = "keyword_analysis df"
  let ?R = "most_common ?K"
  have K: "?K = Counter ?kept"
    by (simp add: keyword_analysis_def)
  have setR: "set ?R = set ?K"
    by (simp add: most_common_def)
  have 0: "?toks = split_ws (lower (join '' '' (map (\<lambda>e. fillna [] (description (snd e))) df)))"
    by (simp add: description_words_def lower_join o_def)
  have 1: "distinct (map fst ?K)"
    unfolding K by (rule distinct_keys_Counter)
  have 2: "set (map fst ?K) = {w \<in> set ?toks. w \<notin> stop_words \<and> 3 < length w}"
    unfolding K by (auto simp: keys_Counter)
  have 3: "\<forall>(w, c) \<in> set ?K. c = count_list ?toks w"
    unfolding K by (auto simp: in_Counter_iff count_list_filter)
  have keptQ: "?Q (fst a)" if "a \<in> set ?K" for a
  proof -
    obtain w c where "a = (w, c)" by (cases a)
    with that show ?thesis unfolding K by (auto simp: in_Counter_iff)
  qed
  have "sorted_wrt (\<lambda>a b. first_index ?kept (fst a) < first_index ?kept (fst b)) ?K"
    unfolding K by (rule Counter_by_first_index)
  then have 4: "sorted_wrt (\<lambda>a b. first_index ?toks (fst a) < first_index ?toks (fst b)) ?K"
  proof (rule sorted_wrt_mono_rel [rotated])
    fix a b
    assume "a \<in> set ?K" "b \<in> set ?K"
      and "first_index ?kept (fst a) < first_index ?kept (fst b)"
    then show "first_index ?toks (fst a) < first_index ?toks (fst b)"
      using first_index_filter [of ?Q "fst a" "fst b" ?toks] keptQ by blast
  qed
  have 5: "top_keywords df = take 10 ?R"
    by (simp add: top_keywords_def)
  have "sorted_wrt (\<lambda>a b. snd b < snd a
          \<or> (snd a = snd b \<and> first_index ?kept (fst a) < first_index ?kept (fst b))) ?R"
    unfolding K by (rule most_common_ranked)
  then have 6: "sorted_wrt (\<lambda>a b. snd b < snd a
          \<or> (snd a = snd b \<and> first_index ?toks (fst a) < first_index ?toks (fst b))) ?R"
  proof (rule sorted_wrt_mono_rel [rotated])
    fix a b
    assume "a \<in> set ?R" "b \<in> set ?R"
      and "snd b < snd a \<or> (snd a = snd b \<and> first_index ?kept (fst a) < first_index ?kept (fst b))"
    then show "snd b < snd a \<or> (snd a = snd b \<and> first_index ?toks (fst a) < first_index ?toks (fst b))"
      using first_index_filter [of ?Q "fst a" "fst b" ?toks] keptQ setR by blast
  qed
  from 0 1 2 3 4 5 setR 6 show ?thesis by blast
qed

lemma described_counter:
  "keyword_analysis described
     = [(''quiet'', 1), (''town'', 2), (''hides'', 1), (''secret'', 2), (''agents'', 1), (''leave'', 1)]"
  by (simp add: keyword_analysis_def description_words_def described_def blank_row_def
      fillna_def lower_def lower_char_def ascii_uppercase_def ascii_lowercase_def split_ws_def
      is_space_def stop_words_def Counter_def)

theorem keyword_counter_witness:
  "(''secret'', 2) \<in> set (keyword_analysis described)
   \<and> count_list (description_words described) ''secret'' = 2
   \<and> top_keywords described = take 10 (most_common (keyword_analysis described))"
proof -
  have a: "ascii_column description described"
    by (simp add: ascii_column_def ascii_text_def described_def blank_row_def)
  have m: "(''secret'', 2) \<in> set (keyword_analysis described)"
    by (simp add: described_counter)
  from keyword_counter [OF a]
  have "\<forall>(w, c) \<in> set (keyword_analysis described). c = count_list (description_words described) w"
    and "top_keywords described = take 10 (most_common (keyword_analysis described))"
    by blast+
  with m show ?thesis by fastforce
qed

text \<open>
  C7 as stated fails: the counter that \<open>keyword_analysis\<close> returns for three titles is in
  the order of first occurrence, a term counted once before a term counted twice; it is
  not the ranking by count.
\<close>

theorem keyword_analysis_unranked:
  "keyword_analysis described
     = [(''quiet'', 1), (''town'', 2), (''hides'', 1), (''secret'', 2), (''agents'', 1), (''leave'', 1)]
   \<and> most_common (keyword_analysis described)
     = [(''town'', 2), (''secret'', 2), (''quiet'', 1), (''hides'', 1), (''agents'', 1), (''leave'', 1)]"
  by (simp add: keyword_analysis_def description_words_def described_def blank_row_def
      fillna_def lower_def lower_char_def ascii_uppercase_def ascii_lowercase_def split_ws_def
      is_space_def stop_words_def Counter_def most_common_def)

section \<open>Properties of the genre pairs\<close>

lemma record_pairs_Cons:
  "record_pairs (x # xs) = map (\<lambda>y. (strip x, strip y)) xs @ record_pairs xs"
proof -
  let ?n = "length xs"
  let ?F = "\<lambda>i. map (\<lambda>j. (strip ((x # xs) ! i), strip ((x # xs) ! j))) [i + 1 ..< Suc ?n]"
  let ?G = "\<lambda>i. map (\<lambda>j. (strip (xs ! i), strip (xs ! j))) [i + 1 ..< ?n]"
  have shift: "[Suc a ..< Suc b] = map Suc [a ..< b]" for a b
    by (simp add: map_Suc_upt)
  have F0: "?F 0 = map (\<lambda>y. (strip x, strip y)) xs"
  proof -
    have "?F 0 = map (\<lambda>j. (strip x, strip ((x # xs) ! j))) (map Suc [0 ..< ?n])"
      by (simp add: shift del: upt_Suc)
    also have "\<dots> = map (\<lambda>y. (strip x, strip y)) (map (\<lambda>j. xs ! j) [0 ..< ?n])"
      by (simp add: o_def)
    also have "map (\<lambda>j. xs ! j) [0 ..< ?n] = xs"
      by (rule map_nth)
    finally show ?thesis .
  qed
  have FS: "?F (Suc i) = ?G i" for i
  proof -
    have "?F (Suc i) = map (\<lambda>j. (strip (xs ! i), strip ((x # xs) ! j))) (map Suc [i + 1 ..< ?n])"
      by (simp add: shift del: upt_Suc)
    also have "\<dots> = ?G i" by (simp add: o_def)
    finally show ?thesis .
  qed
  have "record_pairs (x # xs) = concat (map ?F [0 ..< Suc ?n])"
    by (simp add: record_pairs_def del: upt_Suc)
  also have "[0 ..< Suc ?n] = 0 # map Suc [0 ..< ?n]"
    by (simp add: upt_conv_Cons shift del: upt_Suc)
  also have "concat (map ?F (0 # map Suc [0 ..< ?n])) = ?F 0 @ concat (map (\<lambda>i. ?F (Suc i)) [0 ..< ?n])"
    by (simp add: o_def del: upt_Suc)
  also have "\<dots> = map (\<lambda>y. (strip x, strip y)) xs @ concat (map ?G [0 ..< ?n])"
    by (simp only: F0 FS)
  finally show ?thesis by (simp add: record_pairs_def)
qed

lemma record_pairs_all_pairs: "record_pairs g = all_pairs (map strip g)"
proof (induction g)
  case Nil
  show ?case by (simp add: record_pairs_def)
next
  case (Cons x xs)
  then show ?case by (simp add: record_pairs_Cons)
qed

lemma all_pairs_subset: "(a, b) \<in> set (all_pairs xs) \<Longrightarrow> a \<in> set xs \<and> b \<in> set xs"
  by (induction xs) auto

lemma distinct_all_pairs: "distinct xs \<Longrightarrow> distinct (all_pairs xs)"
  by (induction xs) (auto simp: distinct_map inj_on_def dest: all_pairs_subset)

lemma all_pairs_irrefl: "distinct xs \<Longrightarrow> (a, b) \<in> set (all_pairs xs) \<Longrightarrow> a \<noteq> b"
  by (induction xs) (auto dest: all_pairs_subset)

lemma all_pairs_asym:
  "distinct xs \<Longrightarrow> (a, b) \<in> set (all_pairs xs) \<Longrightarrow> (b, a) \<notin> set (all_pairs xs)"
  by (induction xs) (auto dest: all_pairs_subset)

lemma all_pairs_nth:
  "(a, b) \<in> set (all_pairs xs) \<longleftrightarrow> (\<exists>i j. i < j \<and> j < length xs \<and> a = xs ! i \<and> b = xs ! j)"
proof (induction xs)
  case Nil
  show ?case by simp
next
  case (Cons x xs)
  show ?case (is "?L \<longleftrightarrow> ?R")
  proof
    assume ?L
    then consider "a = x" "b \<in> set xs" | "(a, b) \<in> set (all_pairs xs)" by auto
    then show ?R
    proof cases
      case 1
      then obtain j where "j < length xs" "b = xs ! j" by (auto simp: in_set_conv_nth)
      with 1 have "0 < Suc j \<and> Suc j < length (x # xs) \<and> a = (x # xs) ! 0 \<and> b = (x # xs) ! Suc j"
        by simp
      then show ?thesis by blast
    next
      case 2
      with Cons obtain i j where "i < j" "j < length xs" "a = xs ! i" "b = xs ! j" by blast
      then have "Suc i < Suc j \<and> Suc j < length (x # xs) \<and> a = (x # xs) ! Suc i \<and> b = (x # xs) ! Suc j"
        by simp
      then show ?thesis by blast
    qed
  next
    assume ?R
    then obtain i j where ij: "i < j" "j < length (x # xs)" "a = (x # xs) ! i" "b = (x # xs) ! j"
      by blast
    then obtain j' where j': "j = Suc j'" by (cases j) auto
    show ?L
    proof (cases i)
      case 0
      with ij j' show ?thesis by auto
    next
      case (Suc i')
      with ij j' have "i' < j' \<and> j' < length xs \<and> a = xs ! i' \<and> b = xs ! j'" by simp
      with Cons have "(a, b) \<in> set (all_pairs xs)" by blast
      then show ?thesis by simp
    qed
  qed
qed

lemma length_all_pairs: "length (all_pairs xs) = length xs * (length xs - 1) div 2"
proof (induction xs)
  case Nil
  show ?case by simp
next
  case (Cons x xs)
  have "length xs + length xs * (length xs - 1) div 2 = (length xs + 1) * length xs div 2"
    by (cases "length xs") (simp_all add: algebra_simps)
  with Cons show ?case by simp
qed

lemma count_of_foldl_bump:
  "count_of (foldl bump kvs xs) k = count_of kvs k + count_list xs k"
  by (induction xs arbitrary: kvs) (auto simp: count_of_def map_of_bump)

lemma genre_pairs_append: "genre_pairs (df @ df') = genre_pairs df @ genre_pairs df'"
  by (simp add: genre_pairs_def)

lemma count_of_pair_counts: "count_of (pair_counts df) p = count_list (genre_pairs df) p"
  by (simp add: pair_counts_def count_of_Counter)

lemma count_list_distinct: "distinct xs \<Longrightarrow> count_list xs x = (if x \<in> set xs then 1 else 0)"
  by (induction xs) auto

lemma genre_pairs_single:
  "listed_in r = Some s \<Longrightarrow> length (split_on '', '' s) > 1
   \<Longrightarrow> genre_pairs [(i, r)] = record_pairs (split_on '', '' s)"
  by (simp add: genre_pairs_def str_split_def)

text \<open>
  C5, as amended. For every row whose genre text splits into the values \<open>g\<close>, more than
  one: the row adds to the counter of a pair \<open>p\<close> one increment for every two positions
  \<open>a < b\<close> with \<open>p = (g\<^sub>a, g\<^sub>b)\<close>, the values stripped and the pair ordered as listed;
  these are \<open>k (k - 1) / 2\<close> increments for \<open>k\<close> values. When the stripped values of the
  row are pairwise distinct, each such pair gets exactly one increment and no pair of a
  value with itself arises.
\<close>

theorem genre_pair_increments:
  assumes "listed_in r = Some s" and "g = split_on '', '' s" and "length g > 1"
  shows "count_of (pair_counts (df @ (i, r) # df')) p
           = count_of (pair_counts (df @ df')) p + count_list (record_pairs g) p
       \<and> length (record_pairs g) = length g * (length g - 1) div 2
       \<and> (\<forall>a b. a < b \<and> b < length g \<longrightarrow> (strip (g ! a), strip (g ! b)) \<in> set (record_pairs g))
       \<and> (distinct (map strip g) \<longrightarrow>
            count_list (record_pairs g) p
              = (if \<exists>a b. a < b \<and> b < length g \<and> p = (strip (g ! a), strip (g ! b)) then 1 else 0)
          \<and> (\<forall>x. (x, x) \<notin> set (record_pairs g)))"
proof -
  have mem: "(a, b) \<in> set (record_pairs g)
      \<longleftrightarrow> (\<exists>i j. i < j \<and> j < length g \<and> a = strip (g ! i) \<and> b = strip (g ! j))" for a b
  proof -
    have "(a, b) \<in> set (record_pairs g)
      \<longleftrightarrow> (\<exists>i j. i < j \<and> j < length (map strip g) \<and> a = map strip g ! i \<and> b = map strip g ! j)"
      unfolding record_pairs_all_pairs by (rule all_pairs_nth)
    also have "\<dots> \<longleftrightarrow> (\<exists>i j. i < j \<and> j < length g \<and> a = strip (g ! i) \<and> b = strip (g ! j))"
      by (intro ex_cong1 conj_cong refl) auto
    finally show ?thesis .
  qed
  have "df @ (i, r) # df' = df @ [(i, r)] @ df'" by simp
  then have "genre_pairs (df @ (i, r) # df') = genre_pairs df @ record_pairs g @ genre_pairs df'"
    using assms by (simp only: genre_pairs_append genre_pairs_single)
  then have 1: "count_of (pair_counts (df @ (i, r) # df')) p
           = count_of (pair_counts (df @ df')) p + count_list (record_pairs g) p"
    by (simp add: count_of_pair_counts genre_pairs_append)
  have 2: "length (record_pairs g) = length g * (length g - 1) div 2"
    by (simp add: record_pairs_all_pairs length_all_pairs)
  have 3: "\<forall>a b. a < b \<and> b < length g \<longrightarrow> (strip (g ! a), strip (g ! b)) \<in> set (record_pairs g)"
    using mem by blast
  have 4: "count_list (record_pairs g) p
              = (if \<exists>a b. a < b \<and> b < length g \<and> p = (strip (g ! a), strip (g ! b)) then 1 else 0)
          \<and> (\<forall>x. (x, x) \<notin> set (record_pairs g))" if d: "distinct (map strip g)"
  proof -
    from d have "distinct (record_pairs g)"
      by (simp add: record_pairs_all_pairs distinct_all_pairs)
    then have "count_list (record_pairs g) p = (if p \<in> set (record_pairs g) then 1 else 0)"
      by (rule count_list_distinct)
    moreover have "p \<in> set (record_pairs g)
        \<longleftrightarrow> (\<exists>a b. a < b \<and> b < length g \<and> p = (strip (g ! a), strip (g ! b)))"
      using mem [of "fst p" "snd p"] by (cases p) auto
    moreover have "\<forall>x. (x, x) \<notin> set (record_pairs g)"
      using d all_pairs_irrefl [of "map strip g"] by (auto simp: record_pairs_all_pairs)
    ultimately show ?thesis by simp
  qed
  from 1 2 3 4 show ?thesis by blast
qed

theorem genre_pair_increments_witness:
  "listed_in three_genres = Some ''Dramas, Comedies, Thrillers''
   \<and> length (split_on '', '' ''Dramas, Comedies, Thrillers'') > 1
   \<and> distinct (map strip (split_on '', '' ''Dramas, Comedies, Thrillers''))
   \<and> count_of (pair_counts [(0, three_genres)]) (''Dramas'', ''Thrillers'') = 1
   \<and> length (record_pairs (split_on '', '' ''Dramas, Comedies, Thrillers'')) = 3
   \<and> (''Dramas'', ''Dramas'') \<notin> set (record_pairs (split_on '', '' ''Dramas, Comedies, Thrillers''))"
proof -
  let ?g = "split_on '', '' ''Dramas, Comedies, Thrillers''"
  have g: "?g = [''Dramas'', ''Comedies'', ''Thrillers'']"
    by (simp add: split_on_def)
  have h1: "listed_in three_genres = Some ''Dramas, Comedies, Thrillers''"
    by (simp add: three_genres_def blank_row_def)
  have h2: "length ?g > 1" by (simp add: g)
  have h3: "distinct (map strip ?g)" by (simp add: g strip_def is_space_def)
  have ij: "\<exists>a b. a < b \<and> b < length ?g
      \<and> (''Dramas'', ''Thrillers'') = (strip (?g ! a), strip (?g ! b))"
    by (rule exI [of _ 0], rule exI [of _ 2]) (simp add: g strip_def is_space_def)
  have e: "count_of (pair_counts ([] @ [])) (''Dramas'', ''Thrillers'') = 0"
    by (simp add: pair_counts_def genre_pairs_def Counter_def count_of_def)
  from genre_pair_increments [OF h1 refl h2, of "[]" 0 "[]" "(''Dramas'', ''Thrillers'')"] h3 ij e
  have "count_of (pair_counts [(0, three_genres)]) (''Dramas'', ''Thrillers'') = 1
     \<and> length (record_pairs ?g) = length ?g * (length ?g - 1) div 2
     \<and> (''Dramas'', ''Dramas'') \<notin> set (record_pairs ?g)"
    by simp
  moreover have "length ?g * (length ?g - 1) div 2 = 3" by (simp add: g)
  ultimately show ?thesis using h1 h2 h3 by simp
qed

text \<open>
  C5 as stated fails: two rows listing the same two genres in opposite orders increment
  two different counters, and a row that lists a genre twice counts the pair of that
  genre with itself.
\<close>

theorem genre_pairs_ordered:
  "pair_counts swapped_genres = [((''Dramas'', ''Comedies''), 1), ((''Comedies'', ''Dramas''), 1)]
   \<and> pair_counts repeated_genre = [((''Dramas'', ''Dramas''), 1)]"
  by (simp add: pair_counts_def genre_pairs_def str_split_def split_on_def record_pairs_def
      swapped_genres_def repeated_genre_def blank_row_def Counter_def strip_def is_space_def)

section \<open>Properties of the pattern matching\<close>




text \<open>A pattern of the modelled syntax is compiled without the rest of the library.\<close>

lemma re_compile_modelled: "parse pat \<noteq> Beyond \<Longrightarrow> re_compile lib pat = re_compile lib' pat"
  by (cases "parse pat") (simp_all add: re_compile_def)









lemma column_matches_no_text:
  "\<not> has_text col table \<Longrightarrow> column_matches lib q col table sel = Inl AttributeError"
  by (simp add: column_matches_def str_contains_def str_accessor_def has_text_def)


section \<open>Properties of the search\<close>





lemma set_keep_first_subset: "set (keep_first df) \<subseteq> set df"
  by (induction df) auto



lemma keep_first_filter_commute:
  "keep_first (filter (\<lambda>e. P (snd e)) df) = filter (\<lambda>e. P (snd e)) (keep_first df)"
proof (induction df)
  case Nil
  show ?case by simp
next
  case (Cons e es)
  have "filter (\<lambda>e'. snd e' \<noteq> snd e) (filter (\<lambda>e. P (snd e)) (keep_first es))
        = filter (\<lambda>e. P (snd e)) (filter (\<lambda>e'. snd e' \<noteq> snd e) (keep_first es))"
    by (auto intro: filter_cong)
  moreover have "filter (\<lambda>e'. P (snd e')) (filter (\<lambda>e'. snd e' \<noteq> snd e) (keep_first es))
        = filter (\<lambda>e'. P (snd e')) (keep_first es)" if "\<not> P (snd e)"
    using that by (auto intro: filter_cong)
  ultimately show ?case using Cons by auto
qed













section \<open>Properties of the recommendation\<close>









section \<open>Properties of plain queries\<close>




end
